theory Spec2Isabelle
  imports Main
begin

section \<open>Values, requests and responses\<close>

text \<open>
  The service of \<^verbatim>\<open>index.js\<close> is an Express application with three routes and a
  catch-all. The embedding starts after the body parser: a request is what the middleware
  and the handlers read of it once its body is parsed, a response is the status and body
  that is sent.

  A JavaScript value as it can sit in a parsed JSON body. A number is an integer here: the
  handler only ever asks whether a number is zero. A string is a list of code units below
  256.
\<close>

datatype jv =
    JUndefined
  | JNull
  | JBool bool
  | JNum int
  | JStr string
  | JArr "jv list"
  | JObj "(string \<times> jv) list"

text \<open>JavaScript's truthiness: what \<^verbatim>\<open>!v\<close>, \<^verbatim>\<open>v || w\<close> and \<^verbatim>\<open>Boolean(v)\<close> test.\<close>

fun truthy :: "jv \<Rightarrow> bool" where
  "truthy JUndefined = False"
| "truthy JNull = False"
| "truthy (JBool b) = b"
| "truthy (JNum n) = (n \<noteq> 0)"
| "truthy (JStr s) = (s \<noteq> [])"
| "truthy (JArr xs) = True"
| "truthy (JObj kvs) = True"

definition js_or :: "jv \<Rightarrow> jv \<Rightarrow> jv" where
  "js_or a b = (if truthy a then a else b)"

text \<open>
  Reading a named property, as the destructuring pattern of the ingestion handler does.
  Destructuring \<^verbatim>\<open>undefined\<close> or \<^verbatim>\<open>null\<close> throws a TypeError. The names the handler
  reads are neither array indices nor \<^verbatim>\<open>length\<close>, so any other value that is not a plain
  object has none of them, and reading them gives \<^verbatim>\<open>undefined\<close>.
\<close>

datatype js_error = TypeError

fun get_prop :: "jv \<Rightarrow> string \<Rightarrow> js_error + jv" where
  "get_prop JUndefined k = Inl TypeError"
| "get_prop JNull k = Inl TypeError"
| "get_prop (JObj kvs) k = Inr (case map_of kvs k of None \<Rightarrow> JUndefined | Some v \<Rightarrow> v)"
| "get_prop v k = Inr JUndefined"

text \<open>
  Header values, environment variables and the peer address are a string or
  \<^verbatim>\<open>undefined\<close>: \<open>string option\<close>. \<open>or_str a d\<close> is \<^verbatim>\<open>a || d\<close> for a string \<open>d\<close>,
  \<open>falsy_str a\<close> is \<^verbatim>\<open>!a\<close>.
\<close>

definition or_str :: "string option \<Rightarrow> string \<Rightarrow> string" where
  "or_str a d = (case a of None \<Rightarrow> d | Some s \<Rightarrow> if s = [] then d else s)"

definition falsy_str :: "string option \<Rightarrow> bool" where
  "falsy_str a = (case a of None \<Rightarrow> True | Some s \<Rightarrow> s = [])"

text \<open>
  \<^verbatim>\<open>s.split(',')\<close>: the pieces between the commas, never an empty array.
\<close>

fun split_on :: "char \<Rightarrow> string \<Rightarrow> string list" where
  "split_on c [] = [[]]"
| "split_on c (x # xs) =
     (if x = c then [] # split_on c xs
      else (case split_on c xs of
              [] \<Rightarrow> [[x]]
            | p # ps \<Rightarrow> (x # p) # ps))"

text \<open>
  \<^verbatim>\<open>s.trim()\<close> strips white space and line terminators from both ends; among the code
  units below 256 these are TAB, LF, VT, FF, CR, SP and NBSP.
\<close>

definition is_ws :: "char \<Rightarrow> bool" where
  "is_ws c = (c \<in> {CHR 0x09, CHR 0x0A, CHR 0x0B, CHR 0x0C, CHR 0x0D, CHR 0x20, CHR 0xA0})"

definition trim :: "string \<Rightarrow> string" where
  "trim s = rev (dropWhile is_ws (rev (dropWhile is_ws s)))"

text \<open>\<^verbatim>\<open>s.split(',')[0].trim()\<close>.\<close>

definition first_entry :: "string \<Rightarrow> string" where
  "first_entry s = (case split_on CHR '','' s of [] \<Rightarrow> [] | p # ps \<Rightarrow> trim p)"

text \<open>
  What the handlers read of a request: \<^verbatim>\<open>req.headers.authorization\<close>,
  \<^verbatim>\<open>req.headers['x-forwarded-for']\<close>, \<^verbatim>\<open>req.socket.remoteAddress\<close> and
  \<^verbatim>\<open>req.body\<close>; the router reads the method and the path.
\<close>

record request =
  http_method :: string
  path :: string
  authorization :: "string option"
  x_forwarded_for :: "string option"
  remoteAddress :: "string option"
  body :: jv

text \<open>The two environment variables the handlers read.\<close>

record config =
  API_TOKEN :: "string option"
  ALLOW_IPS :: "string option"

text \<open>
  A handler either sends a response (\<^verbatim>\<open>res.status(n).json(v)\<close>, \<^verbatim>\<open>res.json(v)\<close> with
  status 200, \<^verbatim>\<open>res.send(text)\<close>, or a status with no body), or it throws, or its promise
  rejects, before anything is sent.
\<close>

datatype content = Json jv | Text string | Empty

datatype outcome = Reply nat content | Rejected

section \<open>The store\<close>

text \<open>
  Modelled from the spec: the relational store behind \<^verbatim>\<open>pool.query\<close> and its schema,
  \<^verbatim>\<open>users(id PRIMARY KEY, username, display_name)\<close> and
  \<^verbatim>\<open>messages(id, user_id REFERENCES users(id), message, ts)\<close>, neither of which is in
  the repository. A row holds the parameter values as the handler passes them; the
  generated \<^verbatim>\<open>messages.id\<close> is left out. The store is one session: \<open>users\<close> and
  \<open>messages\<close> are the committed tables, \<open>pending\<close> is the working copy of an open
  transaction.
\<close>

record user_row =
  users_id :: jv
  users_username :: jv
  users_display_name :: jv

record message_row =
  messages_user_id :: jv
  messages_message :: jv
  messages_ts :: nat

record store =
  users :: "user_row list"
  messages :: "message_row list"
  pending :: "(user_row list \<times> message_row list) option"

text \<open>The six statements the service sends, with their parameters.\<close>

datatype query =
    Begin
  | UpsertUser jv jv jv
  | InsertMessage jv jv
  | Commit
  | Rollback
  | Select1

text \<open>
  \<^verbatim>\<open>INSERT INTO users ... ON CONFLICT (id) DO UPDATE SET username = EXCLUDED.username,
  display_name = EXCLUDED.display_name\<close>: the row with this id is overwritten, or a new
  row is added.
\<close>

fun upsert :: "jv \<Rightarrow> jv \<Rightarrow> jv \<Rightarrow> user_row list \<Rightarrow> user_row list" where
  "upsert i u d [] = [\<lparr>users_id = i, users_username = u, users_display_name = d\<rparr>]"
| "upsert i u d (r # rs) =
     (if users_id r = i
      then r\<lparr>users_username := u, users_display_name := d\<rparr> # rs
      else r # upsert i u d rs)"

text \<open>
  The effect of a statement that succeeds, at server time \<open>t\<close> (\<^verbatim>\<open>NOW()\<close>). Outside
  a transaction a statement commits by itself; \<^verbatim>\<open>BEGIN\<close> inside a transaction and
  \<^verbatim>\<open>COMMIT\<close> or \<^verbatim>\<open>ROLLBACK\<close> outside one change nothing.
\<close>

fun exec :: "nat \<Rightarrow> query \<Rightarrow> store \<Rightarrow> store" where
  "exec t Begin s =
     (case pending s of
        None \<Rightarrow> s\<lparr>pending := Some (users s, messages s)\<rparr>
      | Some w \<Rightarrow> s)"
| "exec t (UpsertUser i u d) s =
     (case pending s of
        None \<Rightarrow> s\<lparr>users := upsert i u d (users s)\<rparr>
      | Some (us, ms) \<Rightarrow> s\<lparr>pending := Some (upsert i u d us, ms)\<rparr>)"
| "exec t (InsertMessage i m) s =
     (case pending s of
        None \<Rightarrow>
          s\<lparr>messages :=
              messages s @ [\<lparr>messages_user_id = i, messages_message = m, messages_ts = t\<rparr>]\<rparr>
      | Some (us, ms) \<Rightarrow>
          s\<lparr>pending :=
              Some (us, ms @ [\<lparr>messages_user_id = i, messages_message = m, messages_ts = t\<rparr>])\<rparr>)"
| "exec t Commit s =
     (case pending s of
        None \<Rightarrow> s
      | Some (us, ms) \<Rightarrow> s\<lparr>users := us, messages := ms, pending := None\<rparr>)"
| "exec t Rollback s = s\<lparr>pending := None\<rparr>"
| "exec t Select1 s = s"

text \<open>
  What the store does to one request: which of its statements fail, and the server time.
  \<open>pool_query\<close> is \<^verbatim>\<open>await pool.query(...)\<close>: \<open>None\<close> when the promise rejects (the
  statement has had no effect), the store after the statement otherwise.
\<close>

record dbenv =
  fails :: "query \<Rightarrow> bool"
  now :: nat

definition pool_query :: "dbenv \<Rightarrow> query \<Rightarrow> store \<Rightarrow> store option" where
  "pool_query db q s = (if fails db q then None else Some (exec (now db) q s))"

section \<open>The handlers\<close>

type_synonym handler = "store \<Rightarrow> outcome \<times> store"

text \<open>
  \<^verbatim>\<open>function auth(req, res, next)\<close>: the bearer token of the authorization header is
  compared with \<^verbatim>\<open>API_TOKEN\<close>; \<open>next\<close> is the rest of the route.
\<close>

definition auth :: "config \<Rightarrow> request \<Rightarrow> handler \<Rightarrow> handler" where
  "auth cfg req next s =
     (let h = or_str (authorization req) [];
          token = (if take 7 h = ''Bearer '' then drop 7 h else [])
      in if falsy_str (API_TOKEN cfg) \<or> Some token \<noteq> API_TOKEN cfg
         then (Reply 401 (Json (JObj [(''error'', JStr ''unauthorized'')])), s)
         else next s)"

text \<open>\<^verbatim>\<open>function ipAllowed(req)\<close>.\<close>

definition ipAllowed :: "config \<Rightarrow> request \<Rightarrow> bool" where
  "ipAllowed cfg req =
     (let list = filter (\<lambda>e. e \<noteq> []) (map trim (split_on CHR '','' (or_str (ALLOW_IPS cfg) [])))
      in if length list = 0 then True
         else (let ip = first_entry (or_str (x_forwarded_for req) (or_str (remoteAddress req) []))
               in ip \<in> set list))"

text \<open>\<^verbatim>\<open>app.get('/health', ...)\<close>.\<close>

definition health :: "dbenv \<Rightarrow> handler" where
  "health db s =
     (case pool_query db Select1 s of
        Some s1 \<Rightarrow> (Reply 200 (Json (JObj [(''ok'', JBool True)])), s1)
      | None \<Rightarrow>
          (Reply 500 (Json (JObj [(''ok'', JBool False), (''error'', JStr ''db_unreachable'')])), s))"

text \<open>
  \<^verbatim>\<open>app.get('/', ...)\<close>: the greeting, as the bytes sent (it ends in a code point
  beyond 255, four bytes in UTF-8).
\<close>

definition root :: handler where
  "root s =
     (Reply 200 (Text (''API de seguridad Roblox corriendo '' @
        [CHR 0xF0, CHR 0x9F, CHR 0x9A, CHR 0x80])), s)"

text \<open>
  The \<^verbatim>\<open>catch\<close> block of the ingestion handler: \<^verbatim>\<open>await pool.query('ROLLBACK')\<close> is
  not guarded, so when it rejects the handler's promise rejects and nothing is sent.
\<close>

definition catch_block :: "dbenv \<Rightarrow> handler" where
  "catch_block db s =
     (case pool_query db Rollback s of
        None \<Rightarrow> (Rejected, s)
      | Some s1 \<Rightarrow> (Reply 500 (Json (JObj [(''error'', JStr ''server_error'')])), s1))"

text \<open>The \<^verbatim>\<open>try\<close> block: four statements, the first rejection goes to the catch block.\<close>

definition try_block :: "dbenv \<Rightarrow> jv \<Rightarrow> jv \<Rightarrow> jv \<Rightarrow> jv \<Rightarrow> handler" where
  "try_block db userId username displayName message s =
     (case pool_query db Begin s of
        None \<Rightarrow> catch_block db s
      | Some s1 \<Rightarrow>
     (case pool_query db (UpsertUser userId username (js_or displayName JNull)) s1 of
        None \<Rightarrow> catch_block db s1
      | Some s2 \<Rightarrow>
     (case pool_query db (InsertMessage userId message) s2 of
        None \<Rightarrow> catch_block db s2
      | Some s3 \<Rightarrow>
     (case pool_query db Commit s3 of
        None \<Rightarrow> catch_block db s3
      | Some s4 \<Rightarrow> (Reply 200 (Json (JObj [(''ok'', JBool True)])), s4)))))"

text \<open>
  The handler of \<^verbatim>\<open>app.post('/ingest', auth, ...)\<close>. The destructuring stands before
  the \<^verbatim>\<open>try\<close> block: a TypeError there rejects the handler's promise.
\<close>

definition ingest :: "config \<Rightarrow> dbenv \<Rightarrow> request \<Rightarrow> handler" where
  "ingest cfg db req s =
     (if \<not> ipAllowed cfg req
      then (Reply 403 (Json (JObj [(''error'', JStr ''forbidden_ip'')])), s)
      else
        (let b = js_or (body req) (JObj [])
         in case get_prop b ''userId'' of Inl e \<Rightarrow> (Rejected, s) | Inr userId \<Rightarrow>
           (case get_prop b ''username'' of Inl e \<Rightarrow> (Rejected, s) | Inr username \<Rightarrow>
           (case get_prop b ''displayName'' of Inl e \<Rightarrow> (Rejected, s) | Inr displayName \<Rightarrow>
           (case get_prop b ''message'' of Inl e \<Rightarrow> (Rejected, s) | Inr message \<Rightarrow>
              if \<not> truthy userId \<or> \<not> truthy username \<or> \<not> truthy message
              then (Reply 400 (Json (JObj [(''error'', JStr ''missing fields''),
                      (''required'', JArr [JStr ''userId'', JStr ''username'', JStr ''message''])])), s)
              else try_block db userId username displayName message s)))))"

text \<open>
  The value the handler's destructuring gives the field \<open>k\<close> of a request: the property
  \<open>k\<close> of \<^verbatim>\<open>req.body || {}\<close>. The read never throws there (\<open>get_prop_guarded\<close> below),
  so the \<open>Inl\<close> case is never taken.
\<close>

definition body_field :: "request \<Rightarrow> string \<Rightarrow> jv" where
  "body_field req k =
     (case get_prop (js_or (body req) (JObj [])) k of Inr v \<Rightarrow> v | Inl e \<Rightarrow> JUndefined)"

text \<open>The route: the middleware \<open>auth\<close>, then the handler.\<close>

definition ingest_route :: "config \<Rightarrow> dbenv \<Rightarrow> request \<Rightarrow> handler" where
  "ingest_route cfg db req = auth cfg req (ingest cfg db req)"

text \<open>
  Express's route matching, which is not in the repository. A route registered with
  \<^verbatim>\<open>app.get\<close> serves GET and, there being no HEAD route, HEAD; one registered with
  \<^verbatim>\<open>app.post\<close> serves POST. The path is compared without regard to the case of ASCII
  letters, and one trailing slash is optional.
\<close>

definition lower_ascii :: "char \<Rightarrow> char" where
  "lower_ascii c =
     (case map_of (zip ''ABCDEFGHIJKLMNOPQRSTUVWXYZ'' ''abcdefghijklmnopqrstuvwxyz'') c of
        Some l \<Rightarrow> l
      | None \<Rightarrow> c)"

definition strip_slash :: "string \<Rightarrow> string" where
  "strip_slash p = (if p \<noteq> [] \<and> last p = CHR ''/'' then butlast p else p)"

definition path_matches :: "string \<Rightarrow> string \<Rightarrow> bool" where
  "path_matches route p =
     (strip_slash (map lower_ascii p) = strip_slash (map lower_ascii route))"

definition method_matches :: "string \<Rightarrow> string \<Rightarrow> bool" where
  "method_matches m rm = (rm = m \<or> (m = ''GET'' \<and> rm = ''HEAD''))"

definition route_matches :: "string \<Rightarrow> string \<Rightarrow> request \<Rightarrow> bool" where
  "route_matches m p req = (method_matches m (http_method req) \<and> path_matches p (path req))"

text \<open>
  The application, for a request the body parser has parsed: the middleware registered
  before the routes, the routes in the order they are registered, and the catch-all.
  Of the middleware, \<^verbatim>\<open>helmet\<close> and \<^verbatim>\<open>morgan\<close> pass every request on;
  \<^verbatim>\<open>cors\<close> (which is not in the repository) ends every OPTIONS request with status 204
  and no body, whatever \<^verbatim>\<open>ALLOW_ORIGIN\<close> is, and passes every other request on.
\<close>

definition app :: "config \<Rightarrow> dbenv \<Rightarrow> request \<Rightarrow> handler" where
  "app cfg db req s =
     (if http_method req = ''OPTIONS'' then (Reply 204 Empty, s)
      else if route_matches ''GET'' ''/health'' req then health db s
      else if route_matches ''GET'' ''/'' req then root s
      else if route_matches ''POST'' ''/ingest'' req then ingest_route cfg db req s
      else (Reply 404 (Json (JObj [(''error'', JStr ''not_found'')])), s))"

section \<open>Sequences of ingestions\<close>

text \<open>
  Requests to the ingestion route handled one after the other, each with what the store
  does to it. The result is the store after the last one when every one of them is
  answered 200 \<^verbatim>\<open>{"ok": true}\<close>, and \<open>None\<close> as soon as one is not.
\<close>

fun ingest_seq :: "config \<Rightarrow> (dbenv \<times> request) list \<Rightarrow> store \<Rightarrow> store option" where
  "ingest_seq cfg [] s = Some s"
| "ingest_seq cfg (x # xs) s =
     (case ingest_route cfg (fst x) (snd x) s of
        (out, s1) \<Rightarrow>
          if out = Reply 200 (Json (JObj [(''ok'', JBool True)]))
          then ingest_seq cfg xs s1
          else None)"

section \<open>The words of the specification\<close>

text \<open>
  The configured allowlist: the non-empty trimmed entries of \<^verbatim>\<open>ALLOW_IPS\<close>.
\<close>

definition allow_list :: "config \<Rightarrow> string list" where
  "allow_list cfg =
     filter (\<lambda>e. e \<noteq> []) (map trim (split_on CHR '','' (or_str (ALLOW_IPS cfg) [])))"

text \<open>
  The request's address as the specification words it: the first entry of the
  forwarded-for header when the header is present, else the peer address.
\<close>

definition stated_address :: "request \<Rightarrow> string" where
  "stated_address req =
     (case x_forwarded_for req of
        Some h \<Rightarrow> first_entry h
      | None \<Rightarrow> (case remoteAddress req of Some p \<Rightarrow> p | None \<Rightarrow> []))"

text \<open>
  The display name the specification says the last ingestion leaves in the User row: the
  request's \<^verbatim>\<open>displayName\<close>, and null when the request has none.
\<close>

definition stated_display_name :: "request \<Rightarrow> jv" where
  "stated_display_name req =
     (case body_field req ''displayName'' of
        JUndefined \<Rightarrow> JNull
      | v \<Rightarrow> v)"

section \<open>Example inputs\<close>

definition db_ok :: dbenv where
  "db_ok = \<lparr>fails = (\<lambda>q. False), now = 1700000000\<rparr>"

definition db_down :: dbenv where
  "db_down = \<lparr>fails = (\<lambda>q. True), now = 1700000000\<rparr>"

text \<open>The message insert fails, and then the rollback fails too (the connection is gone).\<close>

definition db_lost :: dbenv where
  "db_lost =
     \<lparr>fails = (\<lambda>q. case q of InsertMessage i m \<Rightarrow> True | Rollback \<Rightarrow> True | _ \<Rightarrow> False),
      now = 1700000000\<rparr>"

definition empty_store :: store where
  "empty_store = \<lparr>users = [], messages = [], pending = None\<rparr>"

definition cfg_open :: config where
  "cfg_open = \<lparr>API_TOKEN = Some ''s3cret'', ALLOW_IPS = None\<rparr>"

definition cfg_ips :: config where
  "cfg_ips = \<lparr>API_TOKEN = Some ''s3cret'', ALLOW_IPS = Some ''10.0.0.1, 10.0.0.2''\<rparr>"

definition post_ingest ::
  "string option \<Rightarrow> string option \<Rightarrow> string option \<Rightarrow> jv \<Rightarrow> request" where
  "post_ingest a x p b =
     \<lparr>http_method = ''POST'', path = ''/ingest'', authorization = a, x_forwarded_for = x,
      remoteAddress = p, body = b\<rparr>"

definition plain_request :: "string \<Rightarrow> string \<Rightarrow> request" where
  "plain_request m p =
     \<lparr>http_method = m, path = p, authorization = None, x_forwarded_for = None,
      remoteAddress = Some ''203.0.113.9'', body = JObj []\<rparr>"

definition hello :: jv where
  "hello = JObj [(''userId'', JStr ''42''), (''username'', JStr ''alice''),
                 (''message'', JStr ''hello'')]"

definition hi_again :: jv where
  "hi_again = JObj [(''userId'', JStr ''42''), (''username'', JStr ''alice2''),
                    (''displayName'', JStr ''Alice''), (''message'', JStr ''hi again'')]"

text \<open>A body whose \<^verbatim>\<open>displayName\<close> is the empty string.\<close>

definition blank_name :: jv where
  "blank_name = JObj [(''userId'', JStr ''42''), (''username'', JStr ''alice''),
                      (''displayName'', JStr []), (''message'', JStr ''hello'')]"

section \<open>Properties of the parts\<close>

lemmas example_defs = cfg_open_def cfg_ips_def db_ok_def db_down_def db_lost_def empty_store_def
  post_ingest_def hello_def hi_again_def
lemmas handler_defs = ingest_route_def auth_def ingest_def try_block_def catch_block_def
  pool_query_def ipAllowed_def or_str_def falsy_str_def js_or_def first_entry_def trim_def
  is_ws_def body_field_def Let_def

subsection \<open>Values\<close>

lemma falsy_iff: "(\<not> truthy v) = (v \<in> {JUndefined, JNull, JBool False, JNum 0, JStr []})"
  by (cases v) auto

text \<open>
  After the guard \<^verbatim>\<open>req.body || {}\<close> the destructuring cannot throw; without it, it
  throws exactly for \<^verbatim>\<open>undefined\<close> and \<^verbatim>\<open>null\<close>.
\<close>

lemma get_prop_throws: "(get_prop b k = Inl TypeError) = (b = JUndefined \<or> b = JNull)"
  by (cases b) auto

lemma get_prop_guarded: "\<exists>v. get_prop (js_or b (JObj [])) k = Inr v"
  by (cases b) (auto simp: js_or_def)

lemma get_prop_body_field: "get_prop (js_or (body req) (JObj [])) k = Inr (body_field req k)"
  using get_prop_guarded [of "body req" k] by (auto simp: body_field_def)

lemma body_field_absent:
  "body req = JUndefined \<or> body req = JNull \<Longrightarrow> body_field req k = JUndefined"
  by (auto simp: body_field_def js_or_def)

lemma split_on_not_Nil: "split_on c s \<noteq> []"
  by (induction s) (auto split: list.splits)

text \<open>So the empty case of \<open>first_entry\<close> is never taken.\<close>

subsection \<open>The credential check\<close>

lemma starts_with_Bearer: "(take 7 h = ''Bearer '') = (\<exists>tok. h = ''Bearer '' @ tok)"
proof
  assume "take 7 h = ''Bearer ''"
  then have "h = ''Bearer '' @ drop 7 h"
    by (metis append_take_drop_id)
  then show "\<exists>tok. h = ''Bearer '' @ tok" ..
next
  assume "\<exists>tok. h = ''Bearer '' @ tok"
  then show "take 7 h = ''Bearer ''" by auto
qed

lemma auth_pass:
  assumes "authorization req = Some (''Bearer '' @ tok)" and "API_TOKEN cfg = Some tok"
    and "tok \<noteq> []"
  shows "auth cfg req next s = next s"
  using assms by (simp add: auth_def or_str_def falsy_str_def)

lemma auth_reject_no_bearer:
  assumes "\<forall>tok. authorization req \<noteq> Some (''Bearer '' @ tok)"
  shows "auth cfg req next s = (Reply 401 (Json (JObj [(''error'', JStr ''unauthorized'')])), s)"
proof -
  let ?h = "or_str (authorization req) []"
  have "\<not> (\<exists>tok. ?h = ''Bearer '' @ tok)"
    using assms by (auto simp: or_str_def split: option.splits if_splits)
  then have "take 7 ?h \<noteq> ''Bearer ''"
    using starts_with_Bearer by blast
  then show ?thesis
    by (auto simp: auth_def Let_def falsy_str_def split: option.splits)
qed

lemma auth_reject_mismatch:
  assumes "authorization req = Some (''Bearer '' @ tok)" and "API_TOKEN cfg \<noteq> Some tok"
  shows "auth cfg req next s = (Reply 401 (Json (JObj [(''error'', JStr ''unauthorized'')])), s)"
  using assms by (auto simp: auth_def or_str_def)

lemma auth_reject_unset:
  assumes "falsy_str (API_TOKEN cfg)"
  shows "auth cfg req next s = (Reply 401 (Json (JObj [(''error'', JStr ''unauthorized'')])), s)"
  using assms by (simp add: auth_def)

text \<open>The whole decision: the route goes on exactly for a non-empty token that is the secret.\<close>

lemma auth_cases:
  "auth cfg req next s =
     (if \<exists>tok. tok \<noteq> [] \<and> authorization req = Some (''Bearer '' @ tok) \<and> API_TOKEN cfg = Some tok
      then next s
      else (Reply 401 (Json (JObj [(''error'', JStr ''unauthorized'')])), s))"
proof (cases "\<exists>tok. authorization req = Some (''Bearer '' @ tok)")
  case False
  then show ?thesis by (auto simp: auth_reject_no_bearer)
next
  case True
  then obtain tok where h: "authorization req = Some (''Bearer '' @ tok)" ..
  show ?thesis
  proof (cases "API_TOKEN cfg = Some tok \<and> tok \<noteq> []")
    case True
    then show ?thesis using h auth_pass [of req tok cfg] by auto
  next
    case False
    then have "API_TOKEN cfg \<noteq> Some tok \<or> falsy_str (API_TOKEN cfg)"
      by (auto simp: falsy_str_def)
    then have "auth cfg req next s =
        (Reply 401 (Json (JObj [(''error'', JStr ''unauthorized'')])), s)"
      using h auth_reject_mismatch auth_reject_unset by blast
    moreover have "\<not> (\<exists>t. t \<noteq> [] \<and> authorization req = Some (''Bearer '' @ t) \<and> API_TOKEN cfg = Some t)"
      using h False by auto
    ultimately show ?thesis by (simp only: if_False)
  qed
qed

subsection \<open>The ingestion handler\<close>

lemma catch_block_not_401: "fst (catch_block db s) \<noteq> Reply 401 c"
  by (simp add: catch_block_def split: option.splits)

lemma try_block_not_401: "fst (try_block db i u d m s) \<noteq> Reply 401 c"
  by (simp add: try_block_def catch_block_not_401 split: option.splits)

lemma ingest_not_401: "fst (ingest cfg db req s) \<noteq> Reply 401 c"
  by (simp add: ingest_def Let_def get_prop_body_field try_block_not_401)

text \<open>
  The handler rejects only in its catch block, when the rollback fails: for no body at
  all does the destructuring throw.
\<close>

lemma catch_block_rejected: "fst (catch_block db s) = Rejected \<Longrightarrow> fails db Rollback"
  by (simp add: catch_block_def pool_query_def split: if_splits)

lemma try_block_rejected: "fst (try_block db i u d m s) = Rejected \<Longrightarrow> fails db Rollback"
  by (auto simp: try_block_def pool_query_def dest: catch_block_rejected split: if_splits)

lemma ingest_rejected: "fst (ingest cfg db req s) = Rejected \<Longrightarrow> fails db Rollback"
  by (auto simp: ingest_def Let_def get_prop_body_field dest: try_block_rejected split: if_splits)

lemma ingest_cases:
  "ingest cfg db req s =
     (if \<not> ipAllowed cfg req
      then (Reply 403 (Json (JObj [(''error'', JStr ''forbidden_ip'')])), s)
      else if \<not> truthy (body_field req ''userId'') \<or> \<not> truthy (body_field req ''username'')
              \<or> \<not> truthy (body_field req ''message'')
      then (Reply 400 (Json (JObj [(''error'', JStr ''missing fields''),
              (''required'', JArr [JStr ''userId'', JStr ''username'', JStr ''message''])])), s)
      else try_block db (body_field req ''userId'') (body_field req ''username'')
             (body_field req ''displayName'') (body_field req ''message'') s)"
  by (simp add: ingest_def Let_def get_prop_body_field)

subsection \<open>The route as a whole\<close>

text \<open>A POST request for \<^verbatim>\<open>/ingest\<close> is handled by the ingestion route.\<close>

lemma app_ingest: "app cfg db (post_ingest a x p b) s = ingest_route cfg db (post_ingest a x p b) s"
  by (simp add: app_def route_matches_def method_matches_def path_matches_def strip_slash_def
      lower_ascii_def post_ingest_def)

lemma allow_list_cases:
  "ipAllowed cfg req =
     (allow_list cfg = []
      \<or> first_entry (or_str (x_forwarded_for req) (or_str (remoteAddress req) []))
          \<in> set (allow_list cfg))"
  by (simp add: ipAllowed_def allow_list_def Let_def)

lemma or_str_address:
  "or_str (x_forwarded_for req) (or_str (remoteAddress req) []) =
     (case x_forwarded_for req of
        Some h \<Rightarrow> if h \<noteq> [] then h else (case remoteAddress req of Some p \<Rightarrow> p | None \<Rightarrow> [])
      | None \<Rightarrow> (case remoteAddress req of Some p \<Rightarrow> p | None \<Rightarrow> []))"
  by (simp add: or_str_def split: option.splits)

subsection \<open>The transaction\<close>

lemma exec_begin_upsert_committed:
  "users (exec t (UpsertUser i u d) (exec t Begin s)) = users s
   \<and> messages (exec t (UpsertUser i u d) (exec t Begin s)) = messages s
   \<and> pending (exec t (UpsertUser i u d) (exec t Begin s)) \<noteq> None"
  by (cases "pending s") (auto split: prod.splits)

lemma try_block_insert_fails:
  assumes "\<not> fails db Begin" and "\<not> fails db (UpsertUser i u (js_or d JNull))"
    and "fails db (InsertMessage i m)"
  shows "try_block db i u d m s =
           catch_block db (exec (now db) (UpsertUser i u (js_or d JNull)) (exec (now db) Begin s))"
  using assms by (simp add: try_block_def pool_query_def)

lemma try_block_ok:
  assumes "try_block db i u d m s = (Reply 200 (Json (JObj [(''ok'', JBool True)])), s')"
    and "pending s = None"
  shows "s' = s\<lparr>users := upsert i u (js_or d JNull) (users s),
                 messages := messages s @
                   [\<lparr>messages_user_id = i, messages_message = m, messages_ts = now db\<rparr>]\<rparr>"
  using assms
  by (auto simp: try_block_def catch_block_def pool_query_def split: if_splits)

lemma ingest_route_ok:
  assumes "ingest_route cfg db req s = (Reply 200 (Json (JObj [(''ok'', JBool True)])), s')"
    and "pending s = None"
  shows "s' = s\<lparr>users := upsert (body_field req ''userId'') (body_field req ''username'')
                            (js_or (body_field req ''displayName'') JNull) (users s),
                 messages := messages s @
                   [\<lparr>messages_user_id = body_field req ''userId'',
                     messages_message = body_field req ''message'',
                     messages_ts = now db\<rparr>]\<rparr>"
proof -
  have "try_block db (body_field req ''userId'') (body_field req ''username'')
          (body_field req ''displayName'') (body_field req ''message'') s
        = (Reply 200 (Json (JObj [(''ok'', JBool True)])), s')"
  proof -
    have "auth cfg req (ingest cfg db req) s = (Reply 200 (Json (JObj [(''ok'', JBool True)])), s')"
      using assms(1) by (simp add: ingest_route_def)
    then have "ingest cfg db req s = (Reply 200 (Json (JObj [(''ok'', JBool True)])), s')"
      by (subst (asm) auth_cases) (simp split: if_splits)
    then show ?thesis
      by (simp add: ingest_cases split: if_splits)
  qed
  then show ?thesis
    using assms(2) by (rule try_block_ok)
qed

subsection \<open>The users table\<close>

lemma upsert_ids:
  "map users_id (upsert i u d rs) =
     (if i \<in> set (map users_id rs) then map users_id rs else map users_id rs @ [i])"
  by (induction rs) auto

lemma upsert_distinct:
  "distinct (map users_id rs) \<Longrightarrow> distinct (map users_id (upsert i u d rs))"
  by (simp add: upsert_ids)

lemma upsert_row:
  "distinct (map users_id rs) \<Longrightarrow>
     filter (\<lambda>r. users_id r = i) (upsert i u d rs) =
       [\<lparr>users_id = i, users_username = u, users_display_name = d\<rparr>]"
proof (induction rs)
  case Nil
  then show ?case by simp
next
  case (Cons r rs)
  show ?case
  proof (cases "users_id r = i")
    case True
    then have "i \<notin> users_id ` set rs"
      using Cons.prems by auto
    then have "filter (\<lambda>r. users_id r = i) rs = []"
      by (auto simp: filter_empty_conv)
    then show ?thesis
      using True by (cases r) simp
  next
    case False
    then show ?thesis
      using Cons by simp
  qed
qed

subsection \<open>Sequences\<close>

lemma ingest_seq_step:
  assumes "ingest_seq cfg (x # xs) s = Some s'" and "pending s = None"
  obtains s1 where
    "s1 = s\<lparr>users := upsert (body_field (snd x) ''userId'')
                          (body_field (snd x) ''username'')
                          (js_or (body_field (snd x) ''displayName'') JNull) (users s),
              messages := messages s @
                [\<lparr>messages_user_id = body_field (snd x) ''userId'',
                  messages_message = body_field (snd x) ''message'',
                  messages_ts = now (fst x)\<rparr>]\<rparr>"
    and "ingest_seq cfg xs s1 = Some s'"
proof -
  obtain out s1 where r: "ingest_route cfg (fst x) (snd x) s = (out, s1)"
    by (cases "ingest_route cfg (fst x) (snd x) s")
  with assms(1) have ok: "out = Reply 200 (Json (JObj [(''ok'', JBool True)]))"
    and rest: "ingest_seq cfg xs s1 = Some s'"
    by (auto split: if_splits)
  from r ok assms(2) have "s1 = s\<lparr>users := upsert (body_field (snd x) ''userId'')
                          (body_field (snd x) ''username'')
                          (js_or (body_field (snd x) ''displayName'') JNull) (users s),
              messages := messages s @
                [\<lparr>messages_user_id = body_field (snd x) ''userId'',
                  messages_message = body_field (snd x) ''message'',
                  messages_ts = now (fst x)\<rparr>]\<rparr>"
    using ingest_route_ok by blast
  then show thesis using rest by (rule that)
qed

lemma ingest_seq_invariant:
  assumes "ingest_seq cfg xs s = Some s'" and "pending s = None"
    and "distinct (map users_id (users s))"
  shows "pending s' = None \<and> distinct (map users_id (users s'))"
  using assms
proof (induction xs arbitrary: s)
  case Nil
  then show ?case by simp
next
  case (Cons x xs)
  from Cons.prems(1,2) obtain s1 where
    s1: "s1 = s\<lparr>users := upsert (body_field (snd x) ''userId'')
                          (body_field (snd x) ''username'')
                          (js_or (body_field (snd x) ''displayName'') JNull) (users s),
              messages := messages s @
                [\<lparr>messages_user_id = body_field (snd x) ''userId'',
                  messages_message = body_field (snd x) ''message'',
                  messages_ts = now (fst x)\<rparr>]\<rparr>"
    and rest: "ingest_seq cfg xs s1 = Some s'"
    by (rule ingest_seq_step)
  have "pending s1 = None" and "distinct (map users_id (users s1))"
    using s1 Cons.prems(2,3) by (simp_all add: upsert_distinct)
  with rest show ?case by (rule Cons.IH)
qed

lemma ingest_seq_messages:
  assumes "ingest_seq cfg xs s = Some s'" and "pending s = None"
    and "\<forall>x \<in> set xs. body_field (snd x) ''userId'' = uid"
  shows "length (filter (\<lambda>m. messages_user_id m = uid) (messages s')) =
           length (filter (\<lambda>m. messages_user_id m = uid) (messages s)) + length xs"
  using assms
proof (induction xs arbitrary: s)
  case Nil
  then show ?case by simp
next
  case (Cons x xs)
  from Cons.prems(1,2) obtain s1 where
    s1: "s1 = s\<lparr>users := upsert (body_field (snd x) ''userId'')
                          (body_field (snd x) ''username'')
                          (js_or (body_field (snd x) ''displayName'') JNull) (users s),
              messages := messages s @
                [\<lparr>messages_user_id = body_field (snd x) ''userId'',
                  messages_message = body_field (snd x) ''message'',
                  messages_ts = now (fst x)\<rparr>]\<rparr>"
    and rest: "ingest_seq cfg xs s1 = Some s'"
    by (rule ingest_seq_step)
  have p1: "pending s1 = None"
    using s1 Cons.prems(2) by simp
  have "length (filter (\<lambda>m. messages_user_id m = uid) (messages s')) =
           length (filter (\<lambda>m. messages_user_id m = uid) (messages s1)) + length xs"
    using rest p1 Cons.prems(3) by (intro Cons.IH) simp_all
  moreover have "length (filter (\<lambda>m. messages_user_id m = uid) (messages s1)) =
           length (filter (\<lambda>m. messages_user_id m = uid) (messages s)) + 1"
    using s1 Cons.prems(3) by simp
  ultimately show ?case by simp
qed

lemma ingest_seq_append:
  "ingest_seq cfg (xs @ ys) s =
     (case ingest_seq cfg xs s of None \<Rightarrow> None | Some s1 \<Rightarrow> ingest_seq cfg ys s1)"
  by (induction xs arbitrary: s) (auto split: prod.splits)

lemma ingest_seq_last:
  assumes "ingest_seq cfg xs s = Some s'" and "pending s = None"
    and "distinct (map users_id (users s))" and "xs \<noteq> []"
  shows "filter (\<lambda>r. users_id r = body_field (snd (last xs)) ''userId'') (users s') =
           [\<lparr>users_id = body_field (snd (last xs)) ''userId'',
             users_username = body_field (snd (last xs)) ''username'',
             users_display_name = js_or (body_field (snd (last xs)) ''displayName'') JNull\<rparr>]"
proof -
  have "ingest_seq cfg (butlast xs @ [last xs]) s = Some s'"
    using assms(1,4) by simp
  then obtain s1 where init: "ingest_seq cfg (butlast xs) s = Some s1"
    and fin: "ingest_seq cfg [last xs] s1 = Some s'"
    unfolding ingest_seq_append by (auto split: option.splits)
  have inv: "pending s1 = None \<and> distinct (map users_id (users s1))"
    using init assms(2,3) by (rule ingest_seq_invariant)
  from fin inv obtain s2 where
    s2: "s2 = s1\<lparr>users := upsert (body_field (snd (last xs)) ''userId'')
                          (body_field (snd (last xs)) ''username'')
                          (js_or (body_field (snd (last xs)) ''displayName'') JNull) (users s1),
              messages := messages s1 @
                [\<lparr>messages_user_id = body_field (snd (last xs)) ''userId'',
                  messages_message = body_field (snd (last xs)) ''message'',
                  messages_ts = now (fst (last xs))\<rparr>]\<rparr>"
    and "ingest_seq cfg [] s2 = Some s'"
    by (blast elim: ingest_seq_step)
  then have "users s' = upsert (body_field (snd (last xs)) ''userId'')
                          (body_field (snd (last xs)) ''username'')
                          (js_or (body_field (snd (last xs)) ''displayName'') JNull) (users s1)"
    by auto
  then show ?thesis
    using inv by (simp add: upsert_row)
qed

section \<open>The claims\<close>

text \<open>
  C1. What the ingestion handler does when the message insert fails after \<^verbatim>\<open>BEGIN\<close>
  and the user upsert have succeeded, for a request that carries the secret, passes the
  allowlist and has its three fields. The committed tables are left as they were. When
  the \<^verbatim>\<open>ROLLBACK\<close> of the catch block succeeds the answer is 500
  \<^verbatim>\<open>{"error":"server_error"}\<close> and no transaction stays open. When the \<^verbatim>\<open>ROLLBACK\<close>
  fails as well, the handler's promise rejects and the handler sends no response at all:
  the claim's 500 does not hold there.
\<close>

theorem insert_failure_then_rollback:
  assumes "authorization req = Some (''Bearer '' @ tok)" and "API_TOKEN cfg = Some tok"
    and "tok \<noteq> []"
    and "ipAllowed cfg req"
    and "truthy (body_field req ''userId'')"
    and "truthy (body_field req ''username'')"
    and "truthy (body_field req ''message'')"
    and "\<not> fails db Begin"
    and "\<not> fails db (UpsertUser (body_field req ''userId'') (body_field req ''username'')
                     (js_or (body_field req ''displayName'') JNull))"
    and "fails db (InsertMessage (body_field req ''userId'') (body_field req ''message''))"
  shows "(fails db Rollback \<longrightarrow> fst (ingest_route cfg db req s) = Rejected)
       \<and> (\<not> fails db Rollback \<longrightarrow>
            fst (ingest_route cfg db req s) = Reply 500 (Json (JObj [(''error'', JStr ''server_error'')]))
            \<and> pending (snd (ingest_route cfg db req s)) = None)
       \<and> users (snd (ingest_route cfg db req s)) = users s
       \<and> messages (snd (ingest_route cfg db req s)) = messages s"
proof -
  let ?i = "body_field req ''userId''"
  let ?u = "body_field req ''username''"
  let ?d = "body_field req ''displayName''"
  let ?m = "body_field req ''message''"
  let ?mid = "exec (now db) (UpsertUser ?i ?u (js_or ?d JNull)) (exec (now db) Begin s)"
  have "ingest_route cfg db req s = ingest cfg db req s"
    by (simp add: ingest_route_def auth_pass [OF assms(1-3)])
  also have "\<dots> = try_block db ?i ?u ?d ?m s"
    using assms(4-7) by (simp add: ingest_cases)
  also have "\<dots> = catch_block db ?mid"
    using assms(8-10) by (rule try_block_insert_fails)
  finally have r: "ingest_route cfg db req s = catch_block db ?mid" .
  have mid: "users ?mid = users s \<and> messages ?mid = messages s"
    using exec_begin_upsert_committed by blast
  show ?thesis
    unfolding r using mid
    by (simp add: catch_block_def pool_query_def)
qed

theorem insert_failure_then_rollback_witness:
  "ipAllowed cfg_open (post_ingest (Some ''Bearer s3cret'') None None hello)
   \<and> fails db_lost (InsertMessage (JStr ''42'') (JStr ''hello''))
   \<and> fails db_lost Rollback
   \<and> fst (ingest_route cfg_open db_lost (post_ingest (Some ''Bearer s3cret'') None None hello)
           empty_store) = Rejected"
proof -
  let ?req = "post_ingest (Some ''Bearer s3cret'') None None hello"
  have a: "authorization ?req = Some (''Bearer '' @ ''s3cret'')"
    by (simp add: post_ingest_def)
  have t: "API_TOKEN cfg_open = Some ''s3cret''"
    by (simp add: cfg_open_def)
  have n: "''s3cret'' \<noteq> []"
    by simp
  have i: "ipAllowed cfg_open ?req"
    by (simp add: handler_defs example_defs)
  have f: "truthy (body_field ?req ''userId'')" "truthy (body_field ?req ''username'')"
    "truthy (body_field ?req ''message'')"
    by (simp_all add: post_ingest_def hello_def body_field_def js_or_def)
  have b: "\<not> fails db_lost Begin"
    and u: "\<not> fails db_lost (UpsertUser (body_field ?req ''userId'')
              (body_field ?req ''username'') (js_or (body_field ?req ''displayName'') JNull))"
    and m: "fails db_lost (InsertMessage (body_field ?req ''userId'')
              (body_field ?req ''message''))"
    and r: "fails db_lost Rollback"
    by (simp_all add: db_lost_def post_ingest_def hello_def body_field_def js_or_def)
  have "fst (ingest_route cfg_open db_lost ?req empty_store) = Rejected"
    using insert_failure_then_rollback [OF a t n i f b u m, of empty_store] r by blast
  then show ?thesis
    using i r by (simp add: db_lost_def)
qed

text \<open>
  C2. A request to the ingestion route is answered 401 \<^verbatim>\<open>{"error":"unauthorized"}\<close>, and
  the store is left as it was, whenever no secret is configured (or an empty one), the
  authorization header is missing, the header does not start with the bearer scheme, or
  the token it carries is not the configured secret.
\<close>

theorem ingest_unauthorized:
  assumes "API_TOKEN cfg = None \<or> API_TOKEN cfg = Some []
           \<or> authorization req = None
           \<or> (\<forall>tok. authorization req \<noteq> Some (''Bearer '' @ tok))
           \<or> (\<exists>tok. authorization req = Some (''Bearer '' @ tok) \<and> API_TOKEN cfg \<noteq> Some tok)"
  shows "ingest_route cfg db req s =
           (Reply 401 (Json (JObj [(''error'', JStr ''unauthorized'')])), s)"
proof -
  consider (unset) "falsy_str (API_TOKEN cfg)"
    | (scheme) "\<forall>tok. authorization req \<noteq> Some (''Bearer '' @ tok)"
    | (mismatch) tok where "authorization req = Some (''Bearer '' @ tok)"
        and "API_TOKEN cfg \<noteq> Some tok"
    using assms by (auto simp: falsy_str_def)
  then show ?thesis
  proof cases
    case unset
    then show ?thesis by (simp add: ingest_route_def auth_reject_unset)
  next
    case scheme
    then show ?thesis by (simp add: ingest_route_def auth_reject_no_bearer)
  next
    case mismatch
    then show ?thesis by (simp add: ingest_route_def auth_reject_mismatch)
  qed
qed

theorem ingest_unauthorized_witness:
  "(\<exists>tok. authorization (post_ingest (Some ''Bearer guess'') None None hello)
            = Some (''Bearer '' @ tok) \<and> API_TOKEN cfg_open \<noteq> Some tok)
   \<and> ingest_route cfg_open db_ok (post_ingest (Some ''Bearer guess'') None None hello) empty_store
       = (Reply 401 (Json (JObj [(''error'', JStr ''unauthorized'')])), empty_store)
   \<and> ingest_route \<lparr>API_TOKEN = None, ALLOW_IPS = None\<rparr> db_ok
         (post_ingest (Some ''Bearer s3cret'') None None hello) empty_store
       = (Reply 401 (Json (JObj [(''error'', JStr ''unauthorized'')])), empty_store)"
proof -
  let ?req = "post_ingest (Some ''Bearer guess'') None None hello"
  have h: "\<exists>tok. authorization ?req = Some (''Bearer '' @ tok) \<and> API_TOKEN cfg_open \<noteq> Some tok"
    by (simp add: post_ingest_def cfg_open_def)
  have "ingest_route cfg_open db_ok ?req empty_store
          = (Reply 401 (Json (JObj [(''error'', JStr ''unauthorized'')])), empty_store)"
    using h by (simp add: ingest_unauthorized)
  moreover have "ingest_route \<lparr>API_TOKEN = None, ALLOW_IPS = None\<rparr> db_ok
         (post_ingest (Some ''Bearer s3cret'') None None hello) empty_store
       = (Reply 401 (Json (JObj [(''error'', JStr ''unauthorized'')])), empty_store)"
    by (simp add: ingest_unauthorized)
  ultimately show ?thesis using h by blast
qed

text \<open>
  C3, as amended. After a non-empty sequence of successful ingestions that all carry the
  same \<^verbatim>\<open>userId\<close>, started in a store whose user ids are unique and that has no
  transaction open, the store holds exactly one User row with that id; its username is
  the last ingestion's, and its display name is the last ingestion's \<^verbatim>\<open>displayName\<close>
  when that is truthy and null otherwise (so a missing one, and also an empty or
  otherwise falsy one, overwrites an earlier name with null); and the store holds one
  more Message row of that user per ingestion. (The claim stores the last value as it
  is; the counterexample after the theorem is an empty \<^verbatim>\<open>displayName\<close> stored as
  null.)
\<close>

theorem repeated_ingestion:
  assumes "pending s = None" and "distinct (map users_id (users s))"
    and "xs \<noteq> []"
    and "\<forall>x \<in> set xs. body_field (snd x) ''userId'' = uid"
    and "ingest_seq cfg xs s = Some s'"
  shows "filter (\<lambda>r. users_id r = uid) (users s') =
           [\<lparr>users_id = uid,
             users_username = body_field (snd (last xs)) ''username'',
             users_display_name =
               (if truthy (body_field (snd (last xs)) ''displayName'')
                then body_field (snd (last xs)) ''displayName''
                else JNull)\<rparr>]
       \<and> length (filter (\<lambda>m. messages_user_id m = uid) (messages s')) =
           length (filter (\<lambda>m. messages_user_id m = uid) (messages s)) + length xs"
proof -
  have "last xs \<in> set xs"
    using assms(3) by simp
  then have uid: "body_field (snd (last xs)) ''userId'' = uid"
    using assms(4) by blast
  have "filter (\<lambda>r. users_id r = uid) (users s') =
           [\<lparr>users_id = uid,
             users_username = body_field (snd (last xs)) ''username'',
             users_display_name = js_or (body_field (snd (last xs)) ''displayName'') JNull\<rparr>]"
    using ingest_seq_last [OF assms(5,1,2,3)] unfolding uid .
  moreover have "length (filter (\<lambda>m. messages_user_id m = uid) (messages s')) =
           length (filter (\<lambda>m. messages_user_id m = uid) (messages s)) + length xs"
    using assms(5,1,4) by (rule ingest_seq_messages)
  ultimately show ?thesis
    by (simp add: js_or_def)
qed

theorem repeated_ingestion_witness:
  "ingest_seq cfg_open
     [(db_ok, post_ingest (Some ''Bearer s3cret'') None None hello),
      (db_ok, post_ingest (Some ''Bearer s3cret'') None None hi_again),
      (db_ok, post_ingest (Some ''Bearer s3cret'') None None hello)] empty_store
   = Some \<lparr>users = [\<lparr>users_id = JStr ''42'', users_username = JStr ''alice'',
                       users_display_name = JNull\<rparr>],
            messages =
              [\<lparr>messages_user_id = JStr ''42'', messages_message = JStr ''hello'',
                messages_ts = 1700000000\<rparr>,
               \<lparr>messages_user_id = JStr ''42'', messages_message = JStr ''hi again'',
                messages_ts = 1700000000\<rparr>,
               \<lparr>messages_user_id = JStr ''42'', messages_message = JStr ''hello'',
                messages_ts = 1700000000\<rparr>],
            pending = None\<rparr>
   \<and> filter (\<lambda>r. users_id r = JStr ''42'')
        [\<lparr>users_id = JStr ''42'', users_username = JStr ''alice'', users_display_name = JNull\<rparr>]
     = [\<lparr>users_id = JStr ''42'', users_username = JStr ''alice'', users_display_name = JNull\<rparr>]"
proof -
  let ?xs = "[(db_ok, post_ingest (Some ''Bearer s3cret'') None None hello),
      (db_ok, post_ingest (Some ''Bearer s3cret'') None None hi_again),
      (db_ok, post_ingest (Some ''Bearer s3cret'') None None hello)]"
  let ?s' = "\<lparr>users = [\<lparr>users_id = JStr ''42'', users_username = JStr ''alice'',
                       users_display_name = JNull\<rparr>],
            messages =
              [\<lparr>messages_user_id = JStr ''42'', messages_message = JStr ''hello'',
                messages_ts = 1700000000\<rparr>,
               \<lparr>messages_user_id = JStr ''42'', messages_message = JStr ''hi again'',
                messages_ts = 1700000000\<rparr>,
               \<lparr>messages_user_id = JStr ''42'', messages_message = JStr ''hello'',
                messages_ts = 1700000000\<rparr>],
            pending = None\<rparr>"
  have p: "pending empty_store = None" and d: "distinct (map users_id (users empty_store))"
    by (simp_all add: empty_store_def)
  have n: "?xs \<noteq> []"
    by simp
  have u: "\<forall>x \<in> set ?xs. body_field (snd x) ''userId'' = JStr ''42''"
    by (simp add: post_ingest_def hello_def hi_again_def body_field_def js_or_def)
  have r: "ingest_seq cfg_open ?xs empty_store = Some ?s'"
    by (simp add: handler_defs example_defs)
  show ?thesis
    using r repeated_ingestion [OF p d n u r]
    by (simp add: post_ingest_def hello_def body_field_def js_or_def)
qed

text \<open>
  C3 as the claim states it fails: one successful ingestion whose \<^verbatim>\<open>displayName\<close> is
  the empty string leaves null in the row, not the empty string.
\<close>

theorem blank_display_name_counterexample:
  "ingest_seq cfg_open [(db_ok, post_ingest (Some ''Bearer s3cret'') None None blank_name)]
     empty_store
   = Some \<lparr>users = [\<lparr>users_id = JStr ''42'', users_username = JStr ''alice'',
                       users_display_name = JNull\<rparr>],
            messages = [\<lparr>messages_user_id = JStr ''42'', messages_message = JStr ''hello'',
                          messages_ts = 1700000000\<rparr>],
            pending = None\<rparr>
   \<and> stated_display_name (post_ingest (Some ''Bearer s3cret'') None None blank_name) = JStr []
   \<and> JNull \<noteq> JStr []"
  by (simp add: handler_defs example_defs blank_name_def stated_display_name_def)

text \<open>
  C4, as amended. The checks of the ingestion route run in the order credential check,
  allowlist, field validation: a request without the secret is answered 401 whatever its
  address and body are, one with the secret from an address not on the allowlist is
  answered 403 whatever its body is, one that passes both with a required field missing
  is answered 400, and only then is the transaction run. (The claim puts the allowlist
  first; the counterexample after the theorem is a request without a token from an
  address not on the list, answered 401.)
\<close>

theorem ingest_check_order:
  "ingest_route cfg db req s =
     (if \<not> (\<exists>tok. tok \<noteq> [] \<and> authorization req = Some (''Bearer '' @ tok)
                 \<and> API_TOKEN cfg = Some tok)
      then (Reply 401 (Json (JObj [(''error'', JStr ''unauthorized'')])), s)
      else if \<not> ipAllowed cfg req
      then (Reply 403 (Json (JObj [(''error'', JStr ''forbidden_ip'')])), s)
      else if \<not> truthy (body_field req ''userId'') \<or> \<not> truthy (body_field req ''username'')
              \<or> \<not> truthy (body_field req ''message'')
      then (Reply 400 (Json (JObj [(''error'', JStr ''missing fields''),
              (''required'', JArr [JStr ''userId'', JStr ''username'', JStr ''message''])])), s)
      else try_block db (body_field req ''userId'') (body_field req ''username'')
             (body_field req ''displayName'') (body_field req ''message'') s)"
proof -
  define valid where
    "valid \<longleftrightarrow> (\<exists>tok. tok \<noteq> [] \<and> authorization req = Some (''Bearer '' @ tok)
                 \<and> API_TOKEN cfg = Some tok)"
  have "ingest_route cfg db req s =
      (if valid then ingest cfg db req s
       else (Reply 401 (Json (JObj [(''error'', JStr ''unauthorized'')])), s))"
    unfolding valid_def ingest_route_def by (rule auth_cases)
  then show ?thesis
    unfolding valid_def [symmetric] by (simp add: ingest_cases)
qed

theorem ingest_check_order_witness:
  "ingest_route cfg_ips db_ok
     (post_ingest (Some ''Basic s3cret'') (Some ''6.6.6.6'') (Some ''6.6.6.6'') JNull) empty_store
   = (Reply 401 (Json (JObj [(''error'', JStr ''unauthorized'')])), empty_store)
   \<and> ingest_route cfg_ips db_ok
     (post_ingest (Some ''Bearer s3cret'') (Some ''6.6.6.6'') (Some ''6.6.6.6'') JNull) empty_store
   = (Reply 403 (Json (JObj [(''error'', JStr ''forbidden_ip'')])), empty_store)
   \<and> ingest_route cfg_ips db_ok
     (post_ingest (Some ''Bearer s3cret'') (Some ''10.0.0.1'') (Some ''6.6.6.6'') JNull) empty_store
   = (Reply 400 (Json (JObj [(''error'', JStr ''missing fields''),
        (''required'', JArr [JStr ''userId'', JStr ''username'', JStr ''message''])])), empty_store)"
proof -
  have i1: "\<not> ipAllowed cfg_ips
      (post_ingest (Some ''Bearer s3cret'') (Some ''6.6.6.6'') (Some ''6.6.6.6'') JNull)"
    by (simp add: handler_defs example_defs)
  have i2: "ipAllowed cfg_ips
      (post_ingest (Some ''Bearer s3cret'') (Some ''10.0.0.1'') (Some ''6.6.6.6'') JNull)"
    by (simp add: handler_defs example_defs)
  show ?thesis
    unfolding ingest_check_order using i1 i2
    by (simp add: post_ingest_def cfg_ips_def body_field_def js_or_def)
qed

text \<open>
  C4 as the claim states it fails: a request without an authorization header, from an
  address that is not on the allowlist, is answered 401 and not 403.
\<close>

theorem allowlist_first_counterexample:
  "authorization (post_ingest None (Some ''6.6.6.6'') (Some ''6.6.6.6'') hello) = None
   \<and> \<not> ipAllowed cfg_ips (post_ingest None (Some ''6.6.6.6'') (Some ''6.6.6.6'') hello)
   \<and> ingest_route cfg_ips db_ok (post_ingest None (Some ''6.6.6.6'') (Some ''6.6.6.6'') hello)
         empty_store
       = (Reply 401 (Json (JObj [(''error'', JStr ''unauthorized'')])), empty_store)
   \<and> ingest_route cfg_ips db_ok (post_ingest None (Some ''6.6.6.6'') (Some ''6.6.6.6'') hello)
         empty_store
       \<noteq> (Reply 403 (Json (JObj [(''error'', JStr ''forbidden_ip'')])), empty_store)"
  by (simp add: handler_defs example_defs)

text \<open>
  C5. A request to the ingestion route that carries the secret and passes the allowlist,
  and in whose body one of \<^verbatim>\<open>userId\<close>, \<^verbatim>\<open>username\<close>, \<^verbatim>\<open>message\<close> is absent or falsy
  (\<^verbatim>\<open>undefined\<close>, \<^verbatim>\<open>null\<close>, \<^verbatim>\<open>false\<close>, \<^verbatim>\<open>0\<close> or the empty string), is answered 400
  with the missing-fields body, and the store is left as it was: no statement is sent.
\<close>

theorem ingest_missing_fields:
  assumes "authorization req = Some (''Bearer '' @ tok)" and "API_TOKEN cfg = Some tok"
    and "tok \<noteq> []"
    and "ipAllowed cfg req"
    and "\<exists>k \<in> {''userId'', ''username'', ''message''}.
           body_field req k \<in> {JUndefined, JNull, JBool False, JNum 0, JStr []}"
  shows "ingest_route cfg db req s =
           (Reply 400 (Json (JObj [(''error'', JStr ''missing fields''),
              (''required'', JArr [JStr ''userId'', JStr ''username'', JStr ''message''])])), s)"
proof -
  have "\<not> truthy (body_field req ''userId'') \<or> \<not> truthy (body_field req ''username'')
        \<or> \<not> truthy (body_field req ''message'')"
    using assms(5) unfolding falsy_iff by blast
  then have "ingest cfg db req s =
      (Reply 400 (Json (JObj [(''error'', JStr ''missing fields''),
         (''required'', JArr [JStr ''userId'', JStr ''username'', JStr ''message''])])), s)"
    using assms(4) by (auto simp: ingest_cases)
  then show ?thesis
    by (simp add: ingest_route_def auth_pass [OF assms(1-3)])
qed

theorem ingest_missing_fields_witness:
  "ipAllowed cfg_ips (post_ingest (Some ''Bearer s3cret'') (Some ''10.0.0.2, 172.16.0.1'') None
      (JObj [(''userId'', JStr ''42''), (''username'', JStr []), (''message'', JStr ''hello'')]))
   \<and> ingest_route cfg_ips db_ok
       (post_ingest (Some ''Bearer s3cret'') (Some ''10.0.0.2, 172.16.0.1'') None
          (JObj [(''userId'', JStr ''42''), (''username'', JStr []), (''message'', JStr ''hello'')]))
       empty_store
     = (Reply 400 (Json (JObj [(''error'', JStr ''missing fields''),
          (''required'', JArr [JStr ''userId'', JStr ''username'', JStr ''message''])])), empty_store)"
proof -
  let ?req = "post_ingest (Some ''Bearer s3cret'') (Some ''10.0.0.2, 172.16.0.1'') None
      (JObj [(''userId'', JStr ''42''), (''username'', JStr []), (''message'', JStr ''hello'')])"
  have a: "authorization ?req = Some (''Bearer '' @ ''s3cret'')"
    by (simp add: post_ingest_def)
  have t: "API_TOKEN cfg_ips = Some ''s3cret''"
    by (simp add: cfg_ips_def)
  have i: "ipAllowed cfg_ips ?req"
    by (simp add: ipAllowed_def cfg_ips_def post_ingest_def or_str_def first_entry_def trim_def
        is_ws_def)
  have f: "\<exists>k \<in> {''userId'', ''username'', ''message''}.
           body_field ?req k \<in> {JUndefined, JNull, JBool False, JNum 0, JStr []}"
    by (simp add: post_ingest_def body_field_def js_or_def)
  show ?thesis
    using i ingest_missing_fields [OF a t _ i f, where db = db_ok and s = empty_store] by simp
qed

text \<open>
  C6, as amended. For a request to the ingestion route that carries the secret: it is
  allowed when the allowlist is empty; otherwise it is allowed exactly when its address
  is on the list, the address being the first entry (cut at the first comma, trimmed) of
  the forwarded-for header when that header is present and not empty, and of the peer
  address otherwise; and a request that is not allowed is answered 403
  \<^verbatim>\<open>{"error":"forbidden_ip"}\<close> with the store left as it was. (The claim takes the header
  whenever it is present; the counterexample after the theorem is a request with an
  empty forwarded-for header that is let through on its peer address.)
\<close>

theorem ip_allowlist:
  assumes "authorization req = Some (''Bearer '' @ tok)" and "API_TOKEN cfg = Some tok"
    and "tok \<noteq> []"
  shows "ipAllowed cfg req =
           (allow_list cfg = []
            \<or> first_entry
                 (case x_forwarded_for req of
                    Some h \<Rightarrow>
                      if h \<noteq> [] then h
                      else (case remoteAddress req of Some p \<Rightarrow> p | None \<Rightarrow> [])
                  | None \<Rightarrow> (case remoteAddress req of Some p \<Rightarrow> p | None \<Rightarrow> []))
                \<in> set (allow_list cfg))
       \<and> (\<not> ipAllowed cfg req \<longrightarrow>
            ingest_route cfg db req s =
              (Reply 403 (Json (JObj [(''error'', JStr ''forbidden_ip'')])), s))"
proof -
  have "ingest_route cfg db req s = ingest cfg db req s"
    by (simp add: ingest_route_def auth_pass [OF assms])
  then have "\<not> ipAllowed cfg req \<longrightarrow>
      ingest_route cfg db req s =
        (Reply 403 (Json (JObj [(''error'', JStr ''forbidden_ip'')])), s)"
    by (simp add: ingest_cases)
  then show ?thesis
    by (simp only: allow_list_cases or_str_address simp_thms)
qed

theorem ip_allowlist_witness:
  "\<not> ipAllowed cfg_ips
       (post_ingest (Some ''Bearer s3cret'') (Some ''172.16.0.9, 10.0.0.1'') (Some ''10.0.0.1'') hello)
   \<and> ingest_route cfg_ips db_ok
       (post_ingest (Some ''Bearer s3cret'') (Some ''172.16.0.9, 10.0.0.1'') (Some ''10.0.0.1'') hello)
       empty_store
     = (Reply 403 (Json (JObj [(''error'', JStr ''forbidden_ip'')])), empty_store)"
proof -
  let ?req = "post_ingest (Some ''Bearer s3cret'') (Some ''172.16.0.9, 10.0.0.1'')
                (Some ''10.0.0.1'') hello"
  have a: "authorization ?req = Some (''Bearer '' @ ''s3cret'')"
    by (simp add: post_ingest_def)
  have t: "API_TOKEN cfg_ips = Some ''s3cret''"
    by (simp add: cfg_ips_def)
  have i: "\<not> ipAllowed cfg_ips ?req"
    by (simp add: handler_defs example_defs)
  show ?thesis
    using i ip_allowlist [OF a t, where db = db_ok and s = empty_store] by simp
qed

text \<open>
  C6 as the claim states it fails: the forwarded-for header is present and empty, so its
  first entry is the empty string, which is not on the list; the request is let through
  on its peer address all the same, and its rows are written.
\<close>

theorem empty_forwarded_for_counterexample:
  "x_forwarded_for (post_ingest (Some ''Bearer s3cret'') (Some []) (Some ''10.0.0.1'') hello)
     = Some []
   \<and> allow_list cfg_ips = [''10.0.0.1'', ''10.0.0.2'']
   \<and> stated_address (post_ingest (Some ''Bearer s3cret'') (Some []) (Some ''10.0.0.1'') hello)
     \<notin> set (allow_list cfg_ips)
   \<and> ingest_route cfg_ips db_ok
       (post_ingest (Some ''Bearer s3cret'') (Some []) (Some ''10.0.0.1'') hello) empty_store
     = (Reply 200 (Json (JObj [(''ok'', JBool True)])),
        \<lparr>users = [\<lparr>users_id = JStr ''42'', users_username = JStr ''alice'',
                    users_display_name = JNull\<rparr>],
         messages = [\<lparr>messages_user_id = JStr ''42'', messages_message = JStr ''hello'',
                       messages_ts = 1700000000\<rparr>],
         pending = None\<rparr>)"
  by (simp add: handler_defs example_defs allow_list_def stated_address_def)

text \<open>
  C7. A request that matches the health route is answered without any credential being
  read: 200 \<^verbatim>\<open>{"ok": true}\<close> when the liveness query succeeds, and 500
  \<^verbatim>\<open>{"ok": false, "error": "db_unreachable"}\<close> when it fails, whatever the secret, the
  allowlist and the request's headers are. The store is left as it was.
\<close>

theorem health_contract:
  assumes "route_matches ''GET'' ''/health'' req"
  shows "app cfg db req s =
           (if fails db Select1
            then (Reply 500 (Json (JObj [(''ok'', JBool False),
                                          (''error'', JStr ''db_unreachable'')])), s)
            else (Reply 200 (Json (JObj [(''ok'', JBool True)])), s))"
proof -
  have "http_method req \<noteq> ''OPTIONS''"
    using assms by (auto simp: route_matches_def method_matches_def)
  then have "app cfg db req s = health db s"
    using assms by (simp add: app_def)
  then show ?thesis
    by (simp add: health_def pool_query_def)
qed

theorem health_contract_witness:
  "route_matches ''GET'' ''/health'' (plain_request ''GET'' ''/health'')
   \<and> authorization (plain_request ''GET'' ''/health'') = None
   \<and> app \<lparr>API_TOKEN = None, ALLOW_IPS = Some ''10.0.0.1''\<rparr> db_ok
         (plain_request ''GET'' ''/health'') empty_store
       = (Reply 200 (Json (JObj [(''ok'', JBool True)])), empty_store)
   \<and> app \<lparr>API_TOKEN = None, ALLOW_IPS = Some ''10.0.0.1''\<rparr> db_down
         (plain_request ''GET'' ''/health'') empty_store
       = (Reply 500 (Json (JObj [(''ok'', JBool False),
                                  (''error'', JStr ''db_unreachable'')])), empty_store)"
proof -
  have m: "route_matches ''GET'' ''/health'' (plain_request ''GET'' ''/health'')"
    by (simp add: route_matches_def method_matches_def path_matches_def strip_slash_def
        lower_ascii_def plain_request_def)
  show ?thesis
    using m health_contract [OF m, where db = db_ok] health_contract [OF m, where db = db_down]
    by (simp add: db_ok_def db_down_def plain_request_def)
qed




text \<open>
  C9. Whether the credential check answers 401 or lets the route go on depends on the
  authorization header and the configured secret only: two requests with the same header,
  under the same secret, are both rejected or both passed on, whatever their bodies,
  paths, addresses, the allowlist, the store and the rest of the route are. After a pass
  the handler never answers 401, so the same holds of the route's answer.
\<close>

theorem auth_depends_on_header_and_secret:
  assumes "authorization r1 = authorization r2" and "API_TOKEN c1 = API_TOKEN c2"
  shows "((auth c1 r1 k1 s1 = (Reply 401 (Json (JObj [(''error'', JStr ''unauthorized'')])), s1)
           \<and> auth c2 r2 k2 s2 = (Reply 401 (Json (JObj [(''error'', JStr ''unauthorized'')])), s2))
          \<or> (auth c1 r1 k1 s1 = k1 s1 \<and> auth c2 r2 k2 s2 = k2 s2))
       \<and> ((fst (ingest_route c1 d1 r1 s1) = Reply 401 (Json (JObj [(''error'', JStr ''unauthorized'')])))
          = (fst (ingest_route c2 d2 r2 s2) = Reply 401 (Json (JObj [(''error'', JStr ''unauthorized'')]))))"
proof -
  let ?valid = "\<lambda>c r. \<exists>tok. tok \<noteq> [] \<and> authorization r = Some (''Bearer '' @ tok)
                      \<and> API_TOKEN c = Some tok"
  have same: "?valid c1 r1 = ?valid c2 r2"
    by (simp only: assms)
  show ?thesis
  proof (cases "?valid c1 r1")
    case True
    have v2: "?valid c2 r2" using True unfolding same .
    have "auth c1 r1 k1 s1 = k1 s1" for k1
      using True by (simp only: auth_cases if_True)
    moreover have "auth c2 r2 k2 s2 = k2 s2" for k2
      using v2 by (simp only: auth_cases if_True)
    ultimately show ?thesis
      by (simp add: ingest_route_def ingest_not_401)
  next
    case False
    have v2: "\<not> ?valid c2 r2" using False unfolding same .
    have "auth c1 r1 k1 s1 = (Reply 401 (Json (JObj [(''error'', JStr ''unauthorized'')])), s1)" for k1
      using False by (simp only: auth_cases if_False)
    moreover have "auth c2 r2 k2 s2 = (Reply 401 (Json (JObj [(''error'', JStr ''unauthorized'')])), s2)" for k2
      using v2 by (simp only: auth_cases if_False)
    ultimately show ?thesis
      by (simp add: ingest_route_def)
  qed
qed

theorem auth_depends_on_header_and_secret_witness:
  "authorization (post_ingest (Some ''Bearer s3cret'') None None hello)
     = authorization (post_ingest (Some ''Bearer s3cret'') (Some ''6.6.6.6'') (Some ''10.9.9.9'') JNull)
   \<and> API_TOKEN cfg_open = API_TOKEN cfg_ips
   \<and> ((fst (ingest_route cfg_open db_ok
              (post_ingest (Some ''Bearer s3cret'') None None hello) empty_store)
          = Reply 401 (Json (JObj [(''error'', JStr ''unauthorized'')])))
        = (fst (ingest_route cfg_ips db_down
              (post_ingest (Some ''Bearer s3cret'') (Some ''6.6.6.6'') (Some ''10.9.9.9'') JNull)
              empty_store)
          = Reply 401 (Json (JObj [(''error'', JStr ''unauthorized'')]))))"
proof -
  let ?r1 = "post_ingest (Some ''Bearer s3cret'') None None hello"
  let ?r2 = "post_ingest (Some ''Bearer s3cret'') (Some ''6.6.6.6'') (Some ''10.9.9.9'') JNull"
  have h: "authorization ?r1 = authorization ?r2"
    by (simp add: post_ingest_def)
  have c: "API_TOKEN cfg_open = API_TOKEN cfg_ips"
    by (simp add: cfg_open_def cfg_ips_def)
  have "(fst (ingest_route cfg_open db_ok ?r1 empty_store)
           = Reply 401 (Json (JObj [(''error'', JStr ''unauthorized'')])))
        = (fst (ingest_route cfg_ips db_down ?r2 empty_store)
           = Reply 401 (Json (JObj [(''error'', JStr ''unauthorized'')])))"
    by (rule auth_depends_on_header_and_secret [OF h c, THEN conjunct2])
  then show ?thesis
    using h c by blast
qed

text \<open>
  C10. A request to the ingestion route that carries the secret and passes the allowlist,
  and whose body is \<^verbatim>\<open>undefined\<close> or \<^verbatim>\<open>null\<close>, does not make the handler throw.
  Destructuring the body itself would throw a TypeError; the handler destructures
  \<^verbatim>\<open>req.body || {}\<close>, which is \<^verbatim>\<open>{}\<close> here, so every field reads as \<^verbatim>\<open>undefined\<close>
  without a throw, and the handler answers with the 400 missing-fields response, the
  store left as it was.
\<close>

theorem ingest_absent_body:
  assumes "authorization req = Some (''Bearer '' @ tok)" and "API_TOKEN cfg = Some tok"
    and "tok \<noteq> []"
    and "ipAllowed cfg req"
    and "body req = JUndefined \<or> body req = JNull"
  shows "get_prop (body req) k = Inl TypeError
       \<and> js_or (body req) (JObj []) = JObj []
       \<and> get_prop (js_or (body req) (JObj [])) k = Inr JUndefined
       \<and> ingest_route cfg db req s =
           (Reply 400 (Json (JObj [(''error'', JStr ''missing fields''),
              (''required'', JArr [JStr ''userId'', JStr ''username'', JStr ''message''])])), s)"
proof -
  have t: "get_prop (body req) k = Inl TypeError"
    using assms(5) by auto
  have b: "js_or (body req) (JObj []) = JObj []"
    using assms(5) by (auto simp: js_or_def)
  have "ingest cfg db req s =
      (Reply 400 (Json (JObj [(''error'', JStr ''missing fields''),
         (''required'', JArr [JStr ''userId'', JStr ''username'', JStr ''message''])])), s)"
    using assms(4) by (simp add: ingest_def b)
  then show ?thesis
    by (simp add: t b ingest_route_def auth_pass [OF assms(1-3)])
qed

theorem ingest_absent_body_witness:
  "ipAllowed cfg_open (post_ingest (Some ''Bearer s3cret'') None (Some ''203.0.113.9'') JUndefined)
   \<and> get_prop (body (post_ingest (Some ''Bearer s3cret'') None (Some ''203.0.113.9'') JUndefined))
        ''userId'' = Inl TypeError
   \<and> ingest_route cfg_open db_ok
       (post_ingest (Some ''Bearer s3cret'') None (Some ''203.0.113.9'') JUndefined) empty_store
     = (Reply 400 (Json (JObj [(''error'', JStr ''missing fields''),
          (''required'', JArr [JStr ''userId'', JStr ''username'', JStr ''message''])])), empty_store)"
proof -
  let ?req = "post_ingest (Some ''Bearer s3cret'') None (Some ''203.0.113.9'') JUndefined"
  have a: "authorization ?req = Some (''Bearer '' @ ''s3cret'')"
    by (simp add: post_ingest_def)
  have t: "API_TOKEN cfg_open = Some ''s3cret''"
    by (simp add: cfg_open_def)
  have i: "ipAllowed cfg_open ?req"
    by (simp add: ipAllowed_def cfg_open_def or_str_def trim_def)
  have b: "body ?req = JUndefined \<or> body ?req = JNull"
    by (simp add: post_ingest_def)
  show ?thesis
    using i ingest_absent_body [OF a t _ i b, where db = db_ok and s = empty_store and k = "''userId''"]
    by simp
qed

end
